theory Spec2Isabelle
  imports Complex_Main
begin

section \<open>Exceptions\<close>

text \<open>
  Every \<^verbatim>\<open>raise\<close> of the two modules, and every exception a built-in operation of
  theirs can throw, is a value: the Python class of the exception and the place it comes
  from. A \<open>check\<close> names one \<^verbatim>\<open>raise\<close> statement of \<^verbatim>\<open>_validate_parameters\<close>;
  \<open>NotImplemented m c\<close> says that method \<open>m\<close> is not implemented for class \<open>c\<close>, the message of the
  abstract potentials; \<open>NoAttribute c m\<close> is Python's answer to a method \<open>m\<close> that class
  \<open>c\<close> does not have.
\<close>

datatype py_class = TypeError | ValueError | IndexError | NotImplementedError | AttributeError

datatype check =
    PositionsDtype | PositionsDevice | PositionsShape
  | CellShape | CellDtype | CellDevice | CellDeterminant
  | ChargesDim | ChargesShape | ChargesDtype | ChargesDevice
  | NeighborIndicesShape | NeighborIndicesDevice
  | NeighborShapes | NeighborDistancesDevice | NeighborDistancesDtype

datatype origin =
    Check check
  | LenOfZeroDim
  | TupleIndexOutOfRange
  | NotImplemented string string
  | NoAttribute string string

datatype exn = Exn py_class origin

text \<open>
  The error taxonomy of the specification. Which kind a check belongs to is read off the
  condition it tests: a comparison of \<^verbatim>\<open>dtype\<close>s, of \<^verbatim>\<open>device\<close>s, of shapes or ranks,
  or of the determinant with zero.
\<close>

datatype kind = TypeMismatch | LocalityMismatch | ShapeMismatch | DegenerateGeometry

fun kind_of :: "check \<Rightarrow> kind" where
  "kind_of PositionsDtype = TypeMismatch"
| "kind_of PositionsDevice = LocalityMismatch"
| "kind_of PositionsShape = ShapeMismatch"
| "kind_of CellShape = ShapeMismatch"
| "kind_of CellDtype = TypeMismatch"
| "kind_of CellDevice = LocalityMismatch"
| "kind_of CellDeterminant = DegenerateGeometry"
| "kind_of ChargesDim = ShapeMismatch"
| "kind_of ChargesShape = ShapeMismatch"
| "kind_of ChargesDtype = TypeMismatch"
| "kind_of ChargesDevice = LocalityMismatch"
| "kind_of NeighborIndicesShape = ShapeMismatch"
| "kind_of NeighborIndicesDevice = LocalityMismatch"
| "kind_of NeighborShapes = ShapeMismatch"
| "kind_of NeighborDistancesDevice = LocalityMismatch"
| "kind_of NeighborDistancesDtype = TypeMismatch"

text \<open>The Python class each kind is raised as: \<^verbatim>\<open>TypeError\<close> for a precision mismatch,
  \<^verbatim>\<open>ValueError\<close> for the other three.\<close>

fun class_of :: "kind \<Rightarrow> py_class" where
  "class_of TypeMismatch = TypeError"
| "class_of LocalityMismatch = ValueError"
| "class_of ShapeMismatch = ValueError"
| "class_of DegenerateGeometry = ValueError"

text \<open>A result of the validation is well classed when it is the silent return, an error
  of one of the sixteen checks in the class of the check's kind, or one of the two
  exceptions of the built-in operations in its own class.\<close>

fun well_classed :: "exn + unit \<Rightarrow> bool" where
  "well_classed (Inl (Exn cls (Check c))) = (cls = class_of (kind_of c))"
| "well_classed (Inl (Exn cls LenOfZeroDim)) = (cls = TypeError)"
| "well_classed (Inl (Exn cls TupleIndexOutOfRange)) = (cls = IndexError)"
| "well_classed (Inl (Exn cls (NotImplemented m c))) = False"
| "well_classed (Inl (Exn cls (NoAttribute c m))) = False"
| "well_classed (Inr u) = True"

section \<open>Tensors as the validation reads them\<close>

datatype dtype = Float16 | BFloat16 | Float32 | Float64 | Int32 | Int64 | Bool

datatype device_type = Cpu | Cuda

datatype device = Device device_type "nat option"

text \<open>
  A tensor carries its \<^verbatim>\<open>dtype\<close>, its \<^verbatim>\<open>device\<close>, its \<^verbatim>\<open>shape\<close> and its elements in
  row-major order. Elements are exact reals: rounding is outside this development.
\<close>

record tensor =
  dtype :: dtype
  device :: device
  shape :: "nat list"
  entries :: "real list"

definition dim :: "tensor \<Rightarrow> nat" where
  "dim t = length (shape t)"

text \<open>\<^verbatim>\<open>len(t)\<close>: the first dimension; a tensor of rank 0 has no length and Python raises
  \<^verbatim>\<open>TypeError\<close>.\<close>

definition len :: "tensor \<Rightarrow> exn + nat" where
  "len t = (case shape t of [] \<Rightarrow> Inl (Exn TypeError LenOfZeroDim) | n # _ \<Rightarrow> Inr n)"

text \<open>\<^verbatim>\<open>t.shape[i]\<close>: \<^verbatim>\<open>torch.Size\<close> is a tuple, indexing it out of range raises
  \<^verbatim>\<open>IndexError\<close>.\<close>

definition shape_at :: "tensor \<Rightarrow> nat \<Rightarrow> exn + nat" where
  "shape_at t i =
     (if i < length (shape t) then Inr (shape t ! i)
      else Inl (Exn IndexError TupleIndexOutOfRange))"

text \<open>The shape of \<^verbatim>\<open>t[:, 0]\<close>: the second dimension is indexed away; it takes a tensor
  of rank at least 2 whose second dimension is not empty.\<close>

fun column0_shape :: "nat list \<Rightarrow> exn + nat list" where
  "column0_shape (n # m # rest) =
     (if 0 < m then Inr (n # rest) else Inl (Exn IndexError TupleIndexOutOfRange))"
| "column0_shape _ = Inl (Exn IndexError TupleIndexOutOfRange)"

text \<open>\<^verbatim>\<open>cell.det()\<close> of a tensor of shape \<open>[3, 3]\<close>, by cofactor expansion along the first
  row, over the reals.\<close>

definition det :: "tensor \<Rightarrow> real" where
  "det t =
     (let m = entries t in
        m ! 0 * (m ! 4 * m ! 8 - m ! 5 * m ! 7)
      - m ! 1 * (m ! 3 * m ! 8 - m ! 5 * m ! 6)
      + m ! 2 * (m ! 3 * m ! 7 - m ! 4 * m ! 6))"

section \<open>The validation of the parameters\<close>

text \<open>
  \<^verbatim>\<open>_validate_parameters\<close>, check by check in the order of the source. \<open>Inr ()\<close> is the
  silent return. \<open>class_dtype\<close> and \<open>class_device\<close> are the source's parameters
  \<^verbatim>\<open>dtype\<close> and \<^verbatim>\<open>device\<close>; \<open>smearing\<close> is \<^verbatim>\<open>Union[float, None]\<close>.
\<close>

definition validate_parameters ::
  "tensor \<Rightarrow> tensor \<Rightarrow> tensor \<Rightarrow> tensor \<Rightarrow> tensor \<Rightarrow> real option \<Rightarrow> dtype \<Rightarrow> device
     \<Rightarrow> exn + unit" where
  "validate_parameters charges cell positions neighbor_indices neighbor_distances
       smearing class_dtype class_device =
    (if dtype positions \<noteq> class_dtype then Inl (Exn TypeError (Check PositionsDtype))
     else if device positions \<noteq> class_device then Inl (Exn ValueError (Check PositionsDevice))
     else case len positions of Inl e \<Rightarrow> Inl e | Inr num_atoms \<Rightarrow>
     if shape positions \<noteq> [num_atoms, 3] then Inl (Exn ValueError (Check PositionsShape))
     else if shape cell \<noteq> [3, 3] then Inl (Exn ValueError (Check CellShape))
     else if dtype cell \<noteq> dtype positions then Inl (Exn TypeError (Check CellDtype))
     else if device cell \<noteq> class_device then Inl (Exn ValueError (Check CellDevice))
     else if smearing \<noteq> None \<and> det cell = 0
       then Inl (Exn ValueError (Check CellDeterminant))
     else if dim charges \<noteq> 2 then Inl (Exn ValueError (Check ChargesDim))
     else case shape_at charges 1 of Inl e \<Rightarrow> Inl e | Inr n_channels \<Rightarrow>
     if shape charges \<noteq> [num_atoms, n_channels]
       then Inl (Exn ValueError (Check ChargesShape))
     else if dtype charges \<noteq> dtype positions then Inl (Exn TypeError (Check ChargesDtype))
     else if device charges \<noteq> class_device then Inl (Exn ValueError (Check ChargesDevice))
     else case shape_at neighbor_indices 1 of Inl e \<Rightarrow> Inl e | Inr second_dim \<Rightarrow>
     if second_dim \<noteq> 2 then Inl (Exn ValueError (Check NeighborIndicesShape))
     else if device neighbor_indices \<noteq> class_device
       then Inl (Exn ValueError (Check NeighborIndicesDevice))
     else case column0_shape (shape neighbor_indices) of Inl e \<Rightarrow> Inl e | Inr first_column \<Rightarrow>
     if shape neighbor_distances \<noteq> first_column
       then Inl (Exn ValueError (Check NeighborShapes))
     else if device neighbor_distances \<noteq> class_device
       then Inl (Exn ValueError (Check NeighborDistancesDevice))
     else if dtype neighbor_distances \<noteq> dtype positions
       then Inl (Exn TypeError (Check NeighborDistancesDtype))
     else Inr ())"

text \<open>
  The validation from its eighth check on, and from its twelfth check on: the two tails
  of the chain above, named so that the properties below can be stated stage by stage.
\<close>

definition validate_neighbors :: "tensor \<Rightarrow> tensor \<Rightarrow> tensor \<Rightarrow> device \<Rightarrow> exn + unit" where
  "validate_neighbors positions neighbor_indices neighbor_distances class_device =
    (case shape_at neighbor_indices 1 of Inl e \<Rightarrow> Inl e | Inr second_dim \<Rightarrow>
     if second_dim \<noteq> 2 then Inl (Exn ValueError (Check NeighborIndicesShape))
     else if device neighbor_indices \<noteq> class_device
       then Inl (Exn ValueError (Check NeighborIndicesDevice))
     else case column0_shape (shape neighbor_indices) of Inl e \<Rightarrow> Inl e | Inr first_column \<Rightarrow>
     if shape neighbor_distances \<noteq> first_column
       then Inl (Exn ValueError (Check NeighborShapes))
     else if device neighbor_distances \<noteq> class_device
       then Inl (Exn ValueError (Check NeighborDistancesDevice))
     else if dtype neighbor_distances \<noteq> dtype positions
       then Inl (Exn TypeError (Check NeighborDistancesDtype))
     else Inr ())"

definition validate_charges ::
  "tensor \<Rightarrow> tensor \<Rightarrow> tensor \<Rightarrow> tensor \<Rightarrow> device \<Rightarrow> exn + unit" where
  "validate_charges charges positions neighbor_indices neighbor_distances class_device =
    (if dim charges \<noteq> 2 then Inl (Exn ValueError (Check ChargesDim))
     else case shape_at charges 1 of Inl e \<Rightarrow> Inl e | Inr n_channels \<Rightarrow>
     if shape charges \<noteq> [shape positions ! 0, n_channels]
       then Inl (Exn ValueError (Check ChargesShape))
     else if dtype charges \<noteq> dtype positions then Inl (Exn TypeError (Check ChargesDtype))
     else if device charges \<noteq> class_device then Inl (Exn ValueError (Check ChargesDevice))
     else validate_neighbors positions neighbor_indices neighbor_distances class_device)"

text \<open>
  What it means for an input to satisfy its contract, as the negations of the conditions
  the validation tests. For \<^verbatim>\<open>neighbor_distances\<close> there are two readings: a shape of rank
  one (\<open>neighbor_distances_ok\<close>), and a shape equal to that of the first column of
  \<^verbatim>\<open>neighbor_indices\<close> (\<open>neighbor_distances_match\<close>), which is the condition of the source.
\<close>

definition positions_ok :: "tensor \<Rightarrow> dtype \<Rightarrow> device \<Rightarrow> bool" where
  "positions_ok positions class_dtype class_device \<longleftrightarrow>
     dtype positions = class_dtype \<and> device positions = class_device
     \<and> length (shape positions) = 2 \<and> shape positions ! 1 = 3"

definition cell_ok :: "tensor \<Rightarrow> tensor \<Rightarrow> device \<Rightarrow> bool" where
  "cell_ok cell positions class_device \<longleftrightarrow>
     shape cell = [3, 3] \<and> dtype cell = dtype positions \<and> device cell = class_device"

definition geometry_ok :: "real option \<Rightarrow> tensor \<Rightarrow> bool" where
  "geometry_ok smearing cell \<longleftrightarrow> smearing = None \<or> det cell \<noteq> 0"

definition charges_ok :: "tensor \<Rightarrow> tensor \<Rightarrow> device \<Rightarrow> bool" where
  "charges_ok charges positions class_device \<longleftrightarrow>
     length (shape charges) = 2 \<and> shape charges ! 0 = shape positions ! 0
     \<and> dtype charges = dtype positions \<and> device charges = class_device"

definition neighbor_distances_ok :: "tensor \<Rightarrow> tensor \<Rightarrow> device \<Rightarrow> bool" where
  "neighbor_distances_ok neighbor_distances positions class_device \<longleftrightarrow>
     length (shape neighbor_distances) = 1
     \<and> dtype neighbor_distances = dtype positions
     \<and> device neighbor_distances = class_device"


text \<open>Concrete tensors for the examples: two atoms, one charge channel, one pair.\<close>

definition cpu :: device where
  "cpu = Device Cpu None"

definition mk :: "dtype \<Rightarrow> nat list \<Rightarrow> real list \<Rightarrow> tensor" where
  "mk dt sh xs = \<lparr>dtype = dt, device = cpu, shape = sh, entries = xs\<rparr>"

definition ex_positions :: tensor where
  "ex_positions = mk Float64 [2, 3] [0, 0, 0, 1, 0, 0]"

definition ex_charges :: tensor where
  "ex_charges = mk Float64 [2, 1] [1, -1]"

definition ex_cell :: tensor where
  "ex_cell = mk Float64 [3, 3] [1, 0, 0, 0, 1, 0, 0, 0, 1]"

definition ex_singular_cell :: tensor where
  "ex_singular_cell = mk Float64 [3, 3] [1, 0, 0, 0, 1, 0, 0, 0, 0]"

definition ex_neighbor_indices :: tensor where
  "ex_neighbor_indices = mk Int64 [1, 2] [0, 1]"

definition ex_neighbor_distances :: tensor where
  "ex_neighbor_distances = mk Float64 [1] [1]"

section \<open>Elementwise arithmetic of the potentials\<close>

text \<open>
  An element of a distance or wave-vector array is a real number, or \<open>None\<close> where the
  arithmetic has no real value: a division by zero, zero to a negative power, a negative
  base to a fractional power, the square root of a negative number. \<open>None\<close> is absorbing
  in every operation except the selection \<^verbatim>\<open>torch.where\<close>, which takes the element of the
  chosen branch only. Scalars (Python floats, tensors of rank 0) are single elements and
  broadcast over the array.
\<close>

type_synonym val = "real option"

definition lift2 :: "(real \<Rightarrow> real \<Rightarrow> real) \<Rightarrow> val \<Rightarrow> val \<Rightarrow> val" where
  "lift2 f a b =
     (case a of None \<Rightarrow> None | Some x \<Rightarrow> (case b of None \<Rightarrow> None | Some y \<Rightarrow> Some (f x y)))"

definition add :: "val \<Rightarrow> val \<Rightarrow> val" where
  "add = lift2 (+)"

definition sub :: "val \<Rightarrow> val \<Rightarrow> val" where
  "sub = lift2 (-)"

definition mul :: "val \<Rightarrow> val \<Rightarrow> val" where
  "mul = lift2 (*)"

definition true_divide :: "val \<Rightarrow> val \<Rightarrow> val" where
  "true_divide a b =
     (case a of None \<Rightarrow> None | Some x \<Rightarrow>
        (case b of None \<Rightarrow> None | Some y \<Rightarrow> if y = 0 then None else Some (x / y)))"

text \<open>\<^verbatim>\<open>torch.pow\<close> and \<^verbatim>\<open>**\<close>: a positive base takes any exponent; zero to the zero is
  one; a negative base takes integral exponents only.\<close>

definition pow :: "val \<Rightarrow> val \<Rightarrow> val" where
  "pow a b =
     (case a of None \<Rightarrow> None | Some x \<Rightarrow>
        (case b of None \<Rightarrow> None | Some y \<Rightarrow>
           if 0 < x then Some (x powr y)
           else if x = 0 then (if 0 < y then Some 0 else if y = 0 then Some 1 else None)
           else if y = of_int \<lfloor>y\<rfloor> then Some (x powi \<lfloor>y\<rfloor>)
           else None))"

definition sqrt_v :: "val \<Rightarrow> val" where
  "sqrt_v a = (case a of None \<Rightarrow> None | Some x \<Rightarrow> if 0 \<le> x then Some (sqrt x) else None)"

definition exp_v :: "val \<Rightarrow> val" where
  "exp_v a = map_option exp a"

definition where_v :: "bool \<Rightarrow> val \<Rightarrow> val \<Rightarrow> val" where
  "where_v c a b = (if c then a else b)"

definition add_t :: "val list \<Rightarrow> val list \<Rightarrow> val list" where
  "add_t a b = map2 add a b"

definition sqrt_t :: "val list \<Rightarrow> val list" where
  "sqrt_t a = map sqrt_v a"

definition positive :: "val \<Rightarrow> bool" where
  "positive v = (case v of None \<Rightarrow> False | Some r \<Rightarrow> 0 < r)"


section \<open>The special functions of the numerical library\<close>

text \<open>
  \<^verbatim>\<open>torch.special.gammaln\<close>, \<^verbatim>\<open>gammainc\<close> and \<^verbatim>\<open>gammaincc\<close> are imported, not defined,
  by the source. They are parameters of the model, as functions over the reals;
  \<^verbatim>\<open>gammainc(a, x)\<close> is the lower and \<^verbatim>\<open>gammaincc(a, x)\<close> the upper regularized
  incomplete Gamma function.
\<close>

record special =
  gammaln :: "real \<Rightarrow> real"
  gammainc :: "real \<Rightarrow> real \<Rightarrow> real"
  gammaincc :: "real \<Rightarrow> real \<Rightarrow> real"

text \<open>The identity of the two regularized functions, at fixed arguments.\<close>

definition complementary :: "special \<Rightarrow> bool" where
  "complementary S \<longleftrightarrow> (\<forall>a x. 0 < a \<longrightarrow> 0 < x \<longrightarrow> gammainc S a x + gammaincc S a x = 1)"

text \<open>\<^verbatim>\<open>gamma(x) = torch.exp(gammaln(x))\<close>, the source's own complete Gamma function.\<close>

definition gamma :: "special \<Rightarrow> val \<Rightarrow> val" where
  "gamma S x = exp_v (map_option (gammaln S) x)"

text \<open>An instance for the examples: the regularized incomplete Gamma functions of
  \<open>a = 1\<close>, which are \<open>1 - exp (- x)\<close> and \<open>exp (- x)\<close>, taken at every \<open>a\<close>.\<close>

definition ex_special :: special where
  "ex_special = \<lparr>gammaln = (\<lambda>x. 0), gammainc = (\<lambda>a x. 1 - exp (- x)),
                  gammaincc = (\<lambda>a x. exp (- x))\<rparr>"

section \<open>The potentials\<close>

text \<open>
  The state of an \<^verbatim>\<open>InversePowerLawPotential\<close> is its two fields. The three classes of
  the module are the constructors of \<open>potential\<close>; a method call dispatches on the class
  of \<open>self\<close>, and a method body that calls \<^verbatim>\<open>self.m(...)\<close> calls the dispatching function
  \<open>m\<close>. A method returns an array or raises.
\<close>

record inverse_power_law =
  exponent :: real
  smearing :: real

datatype potential =
    BasePotential
  | RangeSeparatedPotential
  | InversePowerLawPotential inverse_power_law

fun class_name :: "potential \<Rightarrow> string" where
  "class_name BasePotential = ''BasePotential''"
| "class_name RangeSeparatedPotential = ''RangeSeparatedPotential''"
| "class_name (InversePowerLawPotential _) = ''InversePowerLawPotential''"

subsection \<open>The evaluators of the inverse power law\<close>

definition InversePowerLawPotential_from_dist ::
  "inverse_power_law \<Rightarrow> val list \<Rightarrow> val list" where
  "InversePowerLawPotential_from_dist self dist' =
     map (\<lambda>d. pow d (Some (- exponent self))) dist'"

definition InversePowerLawPotential_from_dist_sq ::
  "inverse_power_law \<Rightarrow> val list \<Rightarrow> val list" where
  "InversePowerLawPotential_from_dist_sq self dist_sq =
     map (\<lambda>d. pow d (Some (- exponent self / 2))) dist_sq"

definition InversePowerLawPotential_sr_from_dist ::
  "special \<Rightarrow> inverse_power_law \<Rightarrow> val list \<Rightarrow> val list" where
  "InversePowerLawPotential_sr_from_dist S self dist' =
     (let exponent' = Some (exponent self);
          peff = true_divide exponent' (Some 2);
          prefac = true_divide (Some 1) (pow (Some (2 * (smearing self)\<^sup>2)) peff)
      in map (\<lambda>d.
           let x = true_divide (mul (Some 0.5) (pow d (Some 2))) (Some ((smearing self)\<^sup>2))
           in true_divide (mul prefac (lift2 (gammaincc S) peff x)) (pow x peff)) dist')"

definition InversePowerLawPotential_lr_from_dist ::
  "special \<Rightarrow> inverse_power_law \<Rightarrow> val list \<Rightarrow> val list" where
  "InversePowerLawPotential_lr_from_dist S self dist' =
     (let exponent' = Some (exponent self);
          peff = true_divide exponent' (Some 2);
          prefac = true_divide (Some 1) (pow (Some (2 * (smearing self)\<^sup>2)) peff)
      in map (\<lambda>d.
           let x = true_divide (mul (Some 0.5) (pow d (Some 2))) (Some ((smearing self)\<^sup>2))
           in true_divide (mul prefac (lift2 (gammainc S) peff x)) (pow x peff)) dist')"

definition InversePowerLawPotential_from_k_sq ::
  "special \<Rightarrow> inverse_power_law \<Rightarrow> val list \<Rightarrow> val list" where
  "InversePowerLawPotential_from_k_sq S self k_sq =
     (let exponent' = Some (exponent self);
          peff = true_divide (sub (Some 3) exponent') (Some 2);
          prefac = mul (true_divide (Some (pi powr 1.5))
                          (gamma S (true_divide exponent' (Some 2))))
                       (pow (Some (2 * (smearing self)\<^sup>2)) peff)
      in map (\<lambda>k.
           let x = mul (Some (0.5 * (smearing self)\<^sup>2)) k
           in where_v (k = Some 0) (Some 0)
                (mul (true_divide (mul prefac (lift2 (gammaincc S) peff x)) (pow x peff))
                     (gamma S peff))) k_sq)"

text \<open>The third argument of the \<^verbatim>\<open>torch.where\<close> above at one element: what the formula
  computes where the mask does not select the zero.\<close>

definition fourier_elsewhere :: "special \<Rightarrow> inverse_power_law \<Rightarrow> val \<Rightarrow> val" where
  "fourier_elsewhere S self k =
     (let exponent' = Some (exponent self);
          peff = true_divide (sub (Some 3) exponent') (Some 2);
          prefac = mul (true_divide (Some (pi powr 1.5))
                          (gamma S (true_divide exponent' (Some 2))))
                       (pow (Some (2 * (smearing self)\<^sup>2)) peff);
          x = mul (Some (0.5 * (smearing self)\<^sup>2)) k
      in mul (true_divide (mul prefac (lift2 (gammaincc S) peff x)) (pow x peff))
             (gamma S peff))"

subsection \<open>The abstract classes and the method dispatch\<close>

definition BasePotential_from_dist :: "potential \<Rightarrow> val list \<Rightarrow> exn + val list" where
  "BasePotential_from_dist self dist' =
     Inl (Exn NotImplementedError (NotImplemented ''from_dist'' (class_name self)))"

definition RangeSeparatedPotential_sr_from_dist ::
  "potential \<Rightarrow> val list \<Rightarrow> exn + val list" where
  "RangeSeparatedPotential_sr_from_dist self dist' =
     Inl (Exn NotImplementedError (NotImplemented ''sr_from_dist'' (class_name self)))"

definition RangeSeparatedPotential_lr_from_dist ::
  "potential \<Rightarrow> val list \<Rightarrow> exn + val list" where
  "RangeSeparatedPotential_lr_from_dist self dist' =
     Inl (Exn NotImplementedError (NotImplemented ''lr_from_dist'' (class_name self)))"

text \<open>\<^verbatim>\<open>self.sr_from_dist\<close> and \<^verbatim>\<open>self.lr_from_dist\<close>: \<^verbatim>\<open>BasePotential\<close> has neither
  method, \<^verbatim>\<open>InversePowerLawPotential\<close> overrides both.\<close>

fun sr_from_dist :: "special \<Rightarrow> potential \<Rightarrow> val list \<Rightarrow> exn + val list" where
  "sr_from_dist S BasePotential dist' =
     Inl (Exn AttributeError (NoAttribute ''BasePotential'' ''sr_from_dist''))"
| "sr_from_dist S RangeSeparatedPotential dist' =
     RangeSeparatedPotential_sr_from_dist RangeSeparatedPotential dist'"
| "sr_from_dist S (InversePowerLawPotential p) dist' =
     Inr (InversePowerLawPotential_sr_from_dist S p dist')"

fun lr_from_dist :: "special \<Rightarrow> potential \<Rightarrow> val list \<Rightarrow> exn + val list" where
  "lr_from_dist S BasePotential dist' =
     Inl (Exn AttributeError (NoAttribute ''BasePotential'' ''lr_from_dist''))"
| "lr_from_dist S RangeSeparatedPotential dist' =
     RangeSeparatedPotential_lr_from_dist RangeSeparatedPotential dist'"
| "lr_from_dist S (InversePowerLawPotential p) dist' =
     Inr (InversePowerLawPotential_lr_from_dist S p dist')"

text \<open>\<^verbatim>\<open>self.sr_from_dist(dist) + self.lr_from_dist(dist)\<close>: the left operand is evaluated
  first, and an exception of either operand is the exception of the sum.\<close>

definition RangeSeparatedPotential_from_dist ::
  "special \<Rightarrow> potential \<Rightarrow> val list \<Rightarrow> exn + val list" where
  "RangeSeparatedPotential_from_dist S self dist' =
     (case sr_from_dist S self dist' of Inl e \<Rightarrow> Inl e | Inr sr \<Rightarrow>
        (case lr_from_dist S self dist' of Inl e \<Rightarrow> Inl e | Inr lr \<Rightarrow> Inr (add_t sr lr)))"

definition RangeSeparatedPotential_from_dist_sq ::
  "special \<Rightarrow> potential \<Rightarrow> val list \<Rightarrow> exn + val list" where
  "RangeSeparatedPotential_from_dist_sq S self dist_sq =
     (let dist' = sqrt_t dist_sq in
      case sr_from_dist S self dist' of Inl e \<Rightarrow> Inl e | Inr sr \<Rightarrow>
        (case lr_from_dist S self dist' of Inl e \<Rightarrow> Inl e | Inr lr \<Rightarrow> Inr (add_t sr lr)))"

fun from_dist :: "special \<Rightarrow> potential \<Rightarrow> val list \<Rightarrow> exn + val list" where
  "from_dist S BasePotential dist' = BasePotential_from_dist BasePotential dist'"
| "from_dist S RangeSeparatedPotential dist' =
     RangeSeparatedPotential_from_dist S RangeSeparatedPotential dist'"
| "from_dist S (InversePowerLawPotential p) dist' =
     Inr (InversePowerLawPotential_from_dist p dist')"

text \<open>\<^verbatim>\<open>return self.from_dist(torch.sqrt(dist_sq))\<close>, the default of the base class.\<close>

definition BasePotential_from_dist_sq ::
  "special \<Rightarrow> potential \<Rightarrow> val list \<Rightarrow> exn + val list" where
  "BasePotential_from_dist_sq S self dist_sq = from_dist S self (sqrt_t dist_sq)"

fun from_dist_sq :: "special \<Rightarrow> potential \<Rightarrow> val list \<Rightarrow> exn + val list" where
  "from_dist_sq S BasePotential dist_sq = BasePotential_from_dist_sq S BasePotential dist_sq"
| "from_dist_sq S RangeSeparatedPotential dist_sq =
     RangeSeparatedPotential_from_dist_sq S RangeSeparatedPotential dist_sq"
| "from_dist_sq S (InversePowerLawPotential p) dist_sq =
     Inr (InversePowerLawPotential_from_dist_sq p dist_sq)"

subsection \<open>A call as a step on the state\<close>





section \<open>The complete Gamma function and the formula of the specification\<close>

text \<open>
  The mathematical Gamma function on the reals, by Euler's limit
  \<open>\<Gamma>(x) = lim n! n\<^sup>x / (x (x + 1) \<dots> (x + n))\<close>.
\<close>

definition Gamma_seq :: "real \<Rightarrow> nat \<Rightarrow> real" where
  "Gamma_seq x n = fact n * real n powr x / (\<Prod>k = 0..n. x + real k)"

definition Gamma :: "real \<Rightarrow> real" where
  "Gamma x = lim (Gamma_seq x)"

text \<open>What the library documents of \<^verbatim>\<open>gammaln\<close>: the logarithm of the absolute value of
  the Gamma function.\<close>

definition gammaln_is_log_abs_Gamma :: "special \<Rightarrow> bool" where
  "gammaln_is_log_abs_Gamma S \<longleftrightarrow> gammaln S = (\<lambda>x. ln \<bar>Gamma x\<bar>)"

text \<open>The sequence at \<open>x = - 1 / 2\<close> from its second term on, and the quotient of two
  of its consecutive terms.\<close>

definition neg_half_seq :: "nat \<Rightarrow> real" where
  "neg_half_seq n = Gamma_seq (- 1 / 2) (Suc n)"

definition neg_half_ratio :: "nat \<Rightarrow> real" where
  "neg_half_ratio n = (real n + 2) * sqrt ((real n + 1) / (real n + 2)) / (real n + 3 / 2)"

text \<open>
  The long-range part in reciprocal space as the specification writes it, for
  \<open>k\<^sup>2 > 0\<close>: with \<open>p_eff = (3 - p) / 2\<close> and \<open>x = \<sigma>\<^sup>2 k\<^sup>2 / 2\<close>,
  \<^verbatim>\<open>pi^1.5 / Gamma(p/2) * (2 sigma^2)^p_eff * Gamma_upper_reg(p_eff, x) * Gamma(p_eff) / x^p_eff\<close>,
  with the mathematical \<open>\<Gamma>\<close>. The upper regularized function is the library's.
\<close>

definition spec_long_range_by_squared_wavevector ::
  "(real \<Rightarrow> real \<Rightarrow> real) \<Rightarrow> real \<Rightarrow> real \<Rightarrow> real \<Rightarrow> real" where
  "spec_long_range_by_squared_wavevector Gamma_upper_reg p \<sigma> k_sq =
     (let p_eff = (3 - p) / 2;
          x = \<sigma>\<^sup>2 * k_sq / 2
      in pi powr 1.5 / Gamma (p / 2) * (2 * \<sigma>\<^sup>2) powr p_eff
           * Gamma_upper_reg p_eff x * Gamma p_eff / x powr p_eff)"

section \<open>Properties of the validation\<close>

lemma shape_eq_pair: "xs = [a, b] \<longleftrightarrow> length xs = 2 \<and> xs ! 0 = a \<and> xs ! 1 = b"
  by (cases xs; cases "tl xs"; cases "tl (tl xs)") auto

lemma det_ex_cell: "det ex_cell = 1"
  by (simp add: det_def ex_cell_def mk_def)


lemma column0_shape_Inl:
  "column0_shape s = Inl e \<Longrightarrow> e = Exn IndexError TupleIndexOutOfRange"
  by (induction s rule: column0_shape.induct) (auto split: if_splits)

lemma column0_shape_Inr:
  "2 \<le> length s \<Longrightarrow> 0 < s ! 1 \<Longrightarrow> column0_shape s = Inr (s ! 0 # drop 2 s)"
  by (induction s rule: column0_shape.induct) auto

subsection \<open>The validation stage by stage\<close>

lemma len_positions_ok:
  "positions_ok positions class_dtype class_device \<Longrightarrow>
   len positions = Inr (shape positions ! 0) \<and> shape positions = [shape positions ! 0, 3]"
  unfolding positions_ok_def len_def
  by (cases "shape positions") (auto simp: shape_eq_pair)

lemma validate_after_cell:
  fixes smearing :: "real option"
  assumes "positions_ok positions class_dtype class_device"
      and "cell_ok cell positions class_device"
  shows "validate_parameters charges cell positions neighbor_indices neighbor_distances
           smearing class_dtype class_device =
    (if smearing \<noteq> None \<and> det cell = 0
       then Inl (Exn ValueError (Check CellDeterminant))
     else validate_charges charges positions neighbor_indices neighbor_distances class_device)"
proof -
  from assms(1) have l: "len positions = Inr (shape positions ! 0)"
    and s: "shape positions = [shape positions ! 0, 3]"
    using len_positions_ok by blast+
  from assms(1) have d: "dtype positions = class_dtype" "device positions = class_device"
    by (simp_all add: positions_ok_def)
  from assms(2) have c: "shape cell = [3, 3]" "dtype cell = dtype positions"
    "device cell = class_device"
    by (simp_all add: cell_ok_def)
  have n: "\<not> shape positions \<noteq> [shape positions ! 0, 3]"
    using s by simp
  show ?thesis
    unfolding validate_parameters_def validate_charges_def validate_neighbors_def l sum.case
    using n by (simp add: d c split del: if_split cong: if_weak_cong sum.case_cong_weak)
qed

lemma validate_charges_ok:
  assumes "charges_ok charges positions class_device"
  shows "validate_charges charges positions neighbor_indices neighbor_distances class_device =
         validate_neighbors positions neighbor_indices neighbor_distances class_device"
proof -
  from assms have ch: "dim charges = 2" "shape_at charges 1 = Inr (shape charges ! 1)"
    "dtype charges = dtype positions" "device charges = class_device"
    by (auto simp: charges_ok_def dim_def shape_at_def)
  from assms have n: "\<not> shape charges \<noteq> [shape positions ! 0, shape charges ! 1]"
    by (auto simp: charges_ok_def shape_eq_pair)
  show ?thesis
    unfolding validate_charges_def ch(2) sum.case
    using n by (simp add: ch(1,3,4) split del: if_split cong: if_weak_cong)
qed

lemma validate_after_charges:
  fixes smearing :: "real option"
  assumes "positions_ok positions class_dtype class_device"
      and "cell_ok cell positions class_device"
      and "geometry_ok smearing cell"
      and "charges_ok charges positions class_device"
  shows "validate_parameters charges cell positions neighbor_indices neighbor_distances
           smearing class_dtype class_device =
         validate_neighbors positions neighbor_indices neighbor_distances class_device"
proof -
  from assms(3) have g: "\<not> (smearing \<noteq> None \<and> det cell = 0)"
    by (auto simp: geometry_ok_def)
  show ?thesis
    unfolding validate_after_cell [OF assms(1,2)] validate_charges_ok [OF assms(4)]
    using g by (simp only: if_False)
qed


lemma ex_geometry_ok:
  "geometry_ok (Some 1) ex_cell" "geometry_ok None ex_singular_cell"
  by (simp_all add: geometry_ok_def det_ex_cell)

lemma ex_ok:
  "positions_ok ex_positions Float64 cpu" "cell_ok ex_cell ex_positions cpu"
  "cell_ok ex_singular_cell ex_positions cpu"
  "charges_ok ex_charges ex_positions cpu"
  "neighbor_distances_ok ex_neighbor_distances ex_positions cpu"
  by (simp_all add: positions_ok_def cell_ok_def charges_ok_def
      neighbor_distances_ok_def
      ex_positions_def ex_cell_def ex_singular_cell_def ex_charges_def
      ex_neighbor_distances_def mk_def)

subsection \<open>The shapes of the neighbor arrays\<close>

text \<open>A \<^verbatim>\<open>neighbor_indices\<close> of rank below two never reaches a check of its shape:
  \<^verbatim>\<open>neighbor_indices.shape[1]\<close> raises \<^verbatim>\<open>IndexError\<close> first.\<close>

lemma neighbor_indices_low_rank:
  fixes smearing :: "real option"
  assumes "positions_ok positions class_dtype class_device"
      and "cell_ok cell positions class_device"
      and "geometry_ok smearing cell"
      and "charges_ok charges positions class_device"
      and "length (shape neighbor_indices) < 2"
  shows "validate_parameters charges cell positions neighbor_indices
           neighbor_distances smearing class_dtype class_device
         = Inl (Exn IndexError TupleIndexOutOfRange)"
  unfolding validate_after_charges [OF assms(1-4)] validate_neighbors_def
  using assms(5) by (simp add: shape_at_def)

text \<open>From rank two on, a shape other than \<open>[M, 2]\<close> is a \<^verbatim>\<open>ValueError\<close> of one of the
  two shape checks, when \<^verbatim>\<open>neighbor_distances\<close> has rank one.\<close>

lemma neighbor_indices_high_rank:
  fixes smearing :: "real option"
  assumes "positions_ok positions class_dtype class_device"
      and "cell_ok cell positions class_device"
      and "geometry_ok smearing cell"
      and "charges_ok charges positions class_device"
      and "2 \<le> length (shape neighbor_indices)"
      and "\<not> (length (shape neighbor_indices) = 2 \<and> shape neighbor_indices ! 1 = 2)"
      and "device neighbor_indices = class_device"
      and "neighbor_distances_ok neighbor_distances positions class_device"
  shows "validate_parameters charges cell positions neighbor_indices
           neighbor_distances smearing class_dtype class_device
         \<in> {Inl (Exn ValueError (Check NeighborIndicesShape)),
             Inl (Exn ValueError (Check NeighborShapes))}"
proof (cases "shape neighbor_indices ! 1 = 2")
  case False
  with assms(5) show ?thesis
    unfolding validate_after_charges [OF assms(1-4)] validate_neighbors_def
    by (simp add: shape_at_def)
next
  case True
  with assms(5,6) have r: "3 \<le> length (shape neighbor_indices)"
    by simp
  from assms(8) have nd: "length (shape neighbor_distances) = 1"
    by (simp add: neighbor_distances_ok_def)
  have c: "column0_shape (shape neighbor_indices)
           = Inr (shape neighbor_indices ! 0 # drop 2 (shape neighbor_indices))"
    using column0_shape_Inr [of "shape neighbor_indices"] assms(5) True by simp
  have "length (shape neighbor_indices ! 0 # drop 2 (shape neighbor_indices)) \<noteq> 1"
    using r by simp
  with nd have ne: "shape neighbor_distances
                    \<noteq> shape neighbor_indices ! 0 # drop 2 (shape neighbor_indices)"
    by metis
  show ?thesis
    unfolding validate_after_charges [OF assms(1-4)] validate_neighbors_def c sum.case
    using assms(5,7) True ne by (simp add: shape_at_def)
qed

text \<open>With \<^verbatim>\<open>neighbor_indices\<close> of shape \<open>[M, 2]\<close>, a \<^verbatim>\<open>neighbor_distances\<close> of any shape
  but \<open>[M]\<close> is a \<^verbatim>\<open>ValueError\<close> of the second shape check.\<close>

lemma neighbor_distances_wrong_length:
  fixes smearing :: "real option"
  assumes "positions_ok positions class_dtype class_device"
      and "cell_ok cell positions class_device"
      and "geometry_ok smearing cell"
      and "charges_ok charges positions class_device"
      and "shape neighbor_indices = [M, 2]"
      and "device neighbor_indices = class_device"
      and "shape neighbor_distances \<noteq> [M]"
  shows "validate_parameters charges cell positions neighbor_indices
           neighbor_distances smearing class_dtype class_device
         = Inl (Exn ValueError (Check NeighborShapes))"
  unfolding validate_after_charges [OF assms(1-4)] validate_neighbors_def
  using assms(5-) by (simp add: shape_at_def)

text \<open>
  Claim C5. The claim: when every other input satisfies its contract, a
  \<^verbatim>\<open>neighbor_indices\<close> that is not of shape \<open>[M, 2]\<close>, of rank one for example, makes the
  validation raise a shape-mismatch error. The code at a \<^verbatim>\<open>neighbor_indices\<close> of rank one
  (shape \<open>[2]\<close>), with two atoms, the unit cell, one charge channel and one distance: the
  validation raises \<^verbatim>\<open>IndexError\<close> out of \<^verbatim>\<open>neighbor_indices.shape[1]\<close>, and none of its
  own shape errors.
\<close>

theorem validate_rank_one_neighbor_indices:
  "validate_parameters ex_charges ex_cell ex_positions (mk Int64 [2] [0, 1])
     ex_neighbor_distances (Some 1) Float64 cpu = Inl (Exn IndexError TupleIndexOutOfRange)"
  by (rule neighbor_indices_low_rank [OF ex_ok(1,2) ex_geometry_ok(1) ex_ok(4)])
     (simp add: mk_def)





subsection \<open>The classes of the errors\<close>

lemma well_classed_validate:
  fixes smearing :: "real option"
  shows "well_classed (validate_parameters charges cell positions neighbor_indices neighbor_distances
           smearing class_dtype class_device)"
  unfolding validate_parameters_def len_def shape_at_def
  by (auto split: sum.split list.split dest: column0_shape_Inl)

text \<open>
  Claim C10. Every error a check of the validation raises has one of two classes:
  \<^verbatim>\<open>TypeError\<close> exactly when the check is one of precision, \<^verbatim>\<open>ValueError\<close> exactly when it
  is one of locality, shape or degenerate geometry; no check raises an error of another
  class.
\<close>

theorem validate_error_classes:
  fixes smearing :: "real option"
  assumes "validate_parameters charges cell positions neighbor_indices neighbor_distances
           smearing class_dtype class_device = Inl (Exn cls (Check c))"
  shows "(cls = TypeError \<longleftrightarrow> kind_of c = TypeMismatch)
       \<and> (cls = ValueError \<longleftrightarrow> kind_of c \<in> {LocalityMismatch, ShapeMismatch, DegenerateGeometry})"
proof -
  have "cls = class_of (kind_of c)"
    using well_classed_validate [of charges cell positions neighbor_indices neighbor_distances
           smearing class_dtype class_device] assms by simp
  then show ?thesis by (cases "kind_of c") simp_all
qed

theorem validate_error_classes_witness:
  "validate_parameters ex_charges ex_cell (ex_positions\<lparr>dtype := Float32\<rparr>) ex_neighbor_indices
     ex_neighbor_distances (Some 1) Float64 cpu = Inl (Exn TypeError (Check PositionsDtype))
   \<and> (TypeError = TypeError \<longleftrightarrow> kind_of PositionsDtype = TypeMismatch)
   \<and> (TypeError = ValueError
        \<longleftrightarrow> kind_of PositionsDtype \<in> {LocalityMismatch, ShapeMismatch, DegenerateGeometry})"
proof -
  have h: "validate_parameters ex_charges ex_cell (ex_positions\<lparr>dtype := Float32\<rparr>)
     ex_neighbor_indices ex_neighbor_distances (Some 1) Float64 cpu
     = Inl (Exn TypeError (Check PositionsDtype))"
    by (simp add: validate_parameters_def)
  from validate_error_classes [OF h] h show ?thesis by simp
qed

text \<open>Every exception of the validation is an error of one of its checks, in the class of
  the check's kind, or one of the two exceptions of the built-in operations.\<close>

lemma validate_exceptions:
  fixes smearing :: "real option"
  assumes "validate_parameters charges cell positions neighbor_indices neighbor_distances
           smearing class_dtype class_device = Inl e"
  shows "(\<exists>c. e = Exn (class_of (kind_of c)) (Check c))
       \<or> e = Exn TypeError LenOfZeroDim \<or> e = Exn IndexError TupleIndexOutOfRange"
proof -
  have w: "well_classed (Inl e)"
    using well_classed_validate [of charges cell positions neighbor_indices neighbor_distances
           smearing class_dtype class_device] assms by simp
  obtain cls orig where e: "e = Exn cls orig"
    by (cases e)
  from w show ?thesis
    unfolding e by (cases orig) simp_all
qed

text \<open>Each of the sixteen checks is reached: one input for each, a change of one field of
  an input that passes.\<close>

lemma checks_fire:
  "validate_parameters ex_charges ex_cell (ex_positions\<lparr>dtype := Float32\<rparr>) ex_neighbor_indices
     ex_neighbor_distances (Some 1) Float64 cpu = Inl (Exn TypeError (Check PositionsDtype))"
  "validate_parameters ex_charges ex_cell (ex_positions\<lparr>device := Device Cuda (Some 0)\<rparr>)
     ex_neighbor_indices ex_neighbor_distances (Some 1) Float64 cpu
     = Inl (Exn ValueError (Check PositionsDevice))"
  "validate_parameters ex_charges ex_cell (ex_positions\<lparr>shape := [2, 2]\<rparr>) ex_neighbor_indices
     ex_neighbor_distances (Some 1) Float64 cpu = Inl (Exn ValueError (Check PositionsShape))"
  "validate_parameters ex_charges (ex_cell\<lparr>shape := [2, 2]\<rparr>) ex_positions ex_neighbor_indices
     ex_neighbor_distances (Some 1) Float64 cpu = Inl (Exn ValueError (Check CellShape))"
  "validate_parameters ex_charges (ex_cell\<lparr>dtype := Float32\<rparr>) ex_positions ex_neighbor_indices
     ex_neighbor_distances (Some 1) Float64 cpu = Inl (Exn TypeError (Check CellDtype))"
  "validate_parameters ex_charges (ex_cell\<lparr>device := Device Cuda (Some 0)\<rparr>) ex_positions
     ex_neighbor_indices ex_neighbor_distances (Some 1) Float64 cpu
     = Inl (Exn ValueError (Check CellDevice))"
  "validate_parameters ex_charges ex_singular_cell ex_positions ex_neighbor_indices
     ex_neighbor_distances (Some 1) Float64 cpu = Inl (Exn ValueError (Check CellDeterminant))"
  "validate_parameters (ex_charges\<lparr>shape := [2]\<rparr>) ex_cell ex_positions ex_neighbor_indices
     ex_neighbor_distances (Some 1) Float64 cpu = Inl (Exn ValueError (Check ChargesDim))"
  "validate_parameters (ex_charges\<lparr>shape := [3, 1]\<rparr>) ex_cell ex_positions ex_neighbor_indices
     ex_neighbor_distances (Some 1) Float64 cpu = Inl (Exn ValueError (Check ChargesShape))"
  "validate_parameters (ex_charges\<lparr>dtype := Float32\<rparr>) ex_cell ex_positions ex_neighbor_indices
     ex_neighbor_distances (Some 1) Float64 cpu = Inl (Exn TypeError (Check ChargesDtype))"
  "validate_parameters (ex_charges\<lparr>device := Device Cuda (Some 0)\<rparr>) ex_cell ex_positions
     ex_neighbor_indices ex_neighbor_distances (Some 1) Float64 cpu
     = Inl (Exn ValueError (Check ChargesDevice))"
  "validate_parameters ex_charges ex_cell ex_positions (ex_neighbor_indices\<lparr>shape := [1, 3]\<rparr>)
     ex_neighbor_distances (Some 1) Float64 cpu = Inl (Exn ValueError (Check NeighborIndicesShape))"
  "validate_parameters ex_charges ex_cell ex_positions
     (ex_neighbor_indices\<lparr>device := Device Cuda (Some 0)\<rparr>)
     ex_neighbor_distances (Some 1) Float64 cpu = Inl (Exn ValueError (Check NeighborIndicesDevice))"
  "validate_parameters ex_charges ex_cell ex_positions ex_neighbor_indices
     (ex_neighbor_distances\<lparr>shape := [2]\<rparr>) (Some 1) Float64 cpu
     = Inl (Exn ValueError (Check NeighborShapes))"
  "validate_parameters ex_charges ex_cell ex_positions ex_neighbor_indices
     (ex_neighbor_distances\<lparr>device := Device Cuda (Some 0)\<rparr>) (Some 1) Float64 cpu
     = Inl (Exn ValueError (Check NeighborDistancesDevice))"
  "validate_parameters ex_charges ex_cell ex_positions ex_neighbor_indices
     (ex_neighbor_distances\<lparr>dtype := Float32\<rparr>) (Some 1) Float64 cpu
     = Inl (Exn TypeError (Check NeighborDistancesDtype))"
  by (simp_all add: validate_parameters_def len_def shape_at_def dim_def det_def
      ex_positions_def ex_cell_def ex_singular_cell_def ex_charges_def ex_neighbor_indices_def
      ex_neighbor_distances_def mk_def cpu_def)

section \<open>Properties of the potentials\<close>

subsection \<open>The elementwise operations at defined arguments\<close>

lemma lift2_Some [simp]: "lift2 f (Some x) (Some y) = Some (f x y)"
  by (simp add: lift2_def)

lemma lift2_None [simp]: "lift2 f None b = None" "lift2 f a None = None"
  by (simp_all add: lift2_def split: option.split)

lemma true_divide_Some [simp]:
  "true_divide (Some x) (Some y) = (if y = 0 then None else Some (x / y))"
  by (simp add: true_divide_def)

lemma true_divide_None [simp]: "true_divide None b = None" "true_divide a None = None"
  by (simp_all add: true_divide_def split: option.split)

lemma pow_pos [simp]: "0 < x \<Longrightarrow> pow (Some x) (Some y) = Some (x powr y)"
  by (simp add: pow_def)

lemma pow_None [simp]: "pow None b = None" "pow a None = None"
  by (simp_all add: pow_def split: option.split)

lemma pow_two [simp]: "pow (Some x) (Some 2) = Some (x\<^sup>2)"
proof -
  have "\<lfloor>2::real\<rfloor> = 2" by simp
  then show ?thesis
    by (simp add: pow_def del: floor_numeral)
qed

lemma add_Some [simp]: "add (Some x) (Some y) = Some (x + y)"
  by (simp add: add_def)

lemma mul_Some [simp]: "mul (Some x) (Some y) = Some (x * y)"
  by (simp add: mul_def)

lemma sub_Some [simp]: "sub (Some x) (Some y) = Some (x - y)"
  by (simp add: sub_def)

lemma split_identity:
  fixes p \<sigma> r P Q :: real
  assumes p: "0 < p" and s: "0 < \<sigma>" and r: "0 < r"
    and pq: "P + Q = 1"
  shows "1 / (2 * \<sigma>\<^sup>2) powr (p / 2) * Q / (r\<^sup>2 / (2 * \<sigma>\<^sup>2)) powr (p / 2)
       + 1 / (2 * \<sigma>\<^sup>2) powr (p / 2) * P / (r\<^sup>2 / (2 * \<sigma>\<^sup>2)) powr (p / 2)
       = r powr (- p)"
proof -
  define x where "x = r\<^sup>2 / (2 * \<sigma>\<^sup>2)"
  have x: "0 < x" using r s by (simp add: x_def)
  have r2: "r powr 2 = r\<^sup>2" using r by simp
  have "(2 * \<sigma>\<^sup>2) powr (p / 2) * x powr (p / 2) = (2 * \<sigma>\<^sup>2 * x) powr (p / 2)"
    using s x by (simp add: powr_mult)
  also have "2 * \<sigma>\<^sup>2 * x = r\<^sup>2" using s by (simp add: x_def)
  also have "(r\<^sup>2) powr (p / 2) = r powr p"
    using r by (simp add: powr_def ln_realpow)
  finally have prod: "(2 * \<sigma>\<^sup>2) powr (p / 2) * x powr (p / 2) = r powr p" .
  have "1 / (2 * \<sigma>\<^sup>2) powr (p / 2) * Q / x powr (p / 2)
      + 1 / (2 * \<sigma>\<^sup>2) powr (p / 2) * P / x powr (p / 2)
      = (P + Q) / ((2 * \<sigma>\<^sup>2) powr (p / 2) * x powr (p / 2))"
    by (simp add: add_divide_distrib add.commute)
  also have "\<dots> = r powr (- p)"
    unfolding pq prod by (simp add: powr_minus divide_inverse)
  finally show ?thesis unfolding x_def .
qed

lemma positiveE:
  assumes "positive d"
  obtains r where "d = Some r" "0 < r"
  using assms by (cases d) (simp_all add: positive_def)

lemma sr_from_dist_value:
  assumes s: "0 < smearing self" and d: "\<forall>d \<in> set dist'. positive d"
  shows "InversePowerLawPotential_sr_from_dist S self dist' =
     map (\<lambda>d. Some (1 / (2 * (smearing self)\<^sup>2) powr (exponent self / 2)
                  * gammaincc S (exponent self / 2) (0.5 * (the d)\<^sup>2 / (smearing self)\<^sup>2)
                  / (0.5 * (the d)\<^sup>2 / (smearing self)\<^sup>2) powr (exponent self / 2))) dist'"
  unfolding InversePowerLawPotential_sr_from_dist_def Let_def
proof (rule map_cong [OF refl])
  fix d assume "d \<in> set dist'"
  with d obtain r where r: "d = Some r" "0 < r"
    by (auto elim: positiveE)
  have x: "0 < 0.5 * r\<^sup>2 / (smearing self)\<^sup>2"
    using r s by simp
  show "true_divide
          (mul (true_divide (Some 1)
                 (pow (Some (2 * (smearing self)\<^sup>2)) (true_divide (Some (exponent self)) (Some 2))))
               (lift2 (gammaincc S) (true_divide (Some (exponent self)) (Some 2))
                 (true_divide (mul (Some 0.5) (pow d (Some 2))) (Some ((smearing self)\<^sup>2)))))
          (pow (true_divide (mul (Some 0.5) (pow d (Some 2))) (Some ((smearing self)\<^sup>2)))
               (true_divide (Some (exponent self)) (Some 2)))
        = Some (1 / (2 * (smearing self)\<^sup>2) powr (exponent self / 2)
                  * gammaincc S (exponent self / 2) (0.5 * (the d)\<^sup>2 / (smearing self)\<^sup>2)
                  / (0.5 * (the d)\<^sup>2 / (smearing self)\<^sup>2) powr (exponent self / 2))"
    using s x r(2) by (simp add: r(1))
qed

lemma lr_from_dist_value:
  assumes s: "0 < smearing self" and d: "\<forall>d \<in> set dist'. positive d"
  shows "InversePowerLawPotential_lr_from_dist S self dist' =
     map (\<lambda>d. Some (1 / (2 * (smearing self)\<^sup>2) powr (exponent self / 2)
                  * gammainc S (exponent self / 2) (0.5 * (the d)\<^sup>2 / (smearing self)\<^sup>2)
                  / (0.5 * (the d)\<^sup>2 / (smearing self)\<^sup>2) powr (exponent self / 2))) dist'"
  unfolding InversePowerLawPotential_lr_from_dist_def Let_def
proof (rule map_cong [OF refl])
  fix d assume "d \<in> set dist'"
  with d obtain r where r: "d = Some r" "0 < r"
    by (auto elim: positiveE)
  have x: "0 < 0.5 * r\<^sup>2 / (smearing self)\<^sup>2"
    using r s by simp
  show "true_divide
          (mul (true_divide (Some 1)
                 (pow (Some (2 * (smearing self)\<^sup>2)) (true_divide (Some (exponent self)) (Some 2))))
               (lift2 (gammainc S) (true_divide (Some (exponent self)) (Some 2))
                 (true_divide (mul (Some 0.5) (pow d (Some 2))) (Some ((smearing self)\<^sup>2)))))
          (pow (true_divide (mul (Some 0.5) (pow d (Some 2))) (Some ((smearing self)\<^sup>2)))
               (true_divide (Some (exponent self)) (Some 2)))
        = Some (1 / (2 * (smearing self)\<^sup>2) powr (exponent self / 2)
                  * gammainc S (exponent self / 2) (0.5 * (the d)\<^sup>2 / (smearing self)\<^sup>2)
                  / (0.5 * (the d)\<^sup>2 / (smearing self)\<^sup>2) powr (exponent self / 2))"
    using s x r(2) by (simp add: r(1))
qed

lemma from_dist_value:
  assumes d: "\<forall>d \<in> set dist'. positive d"
  shows "InversePowerLawPotential_from_dist self dist' =
     map (\<lambda>d. Some ((the d) powr (- exponent self))) dist'"
  unfolding InversePowerLawPotential_from_dist_def
  using d by (auto elim!: positiveE)

lemma gamma_Some [simp]: "gamma S (Some x) = Some (exp (gammaln S x))"
  by (simp add: gamma_def exp_v_def)

lemma gamma_None [simp]: "gamma S None = None"
  by (simp add: gamma_def exp_v_def)

lemma pow_zero_base:
  "pow (Some 0) (Some y) = (if 0 < y then Some 0 else if y = 0 then Some 1 else None)"
  by (simp add: pow_def)


subsection \<open>The split of the inverse power law\<close>

text \<open>
  Claim C1. For an exponent \<open>p > 0\<close>, a smearing \<open>\<sigma> > 0\<close> and an array of distances
  \<open>r > 0\<close>, the short-range part plus the long-range part is the full potential
  \<^verbatim>\<open>r^(-p)\<close>, element by element, given that the lower and the upper regularized
  incomplete Gamma function sum to one at fixed arguments.
\<close>

theorem sr_plus_lr_is_full_potential:
  assumes p: "0 < exponent self" and s: "0 < smearing self"
      and d: "\<forall>d \<in> set dist'. positive d"
      and c: "complementary S"
  shows "add_t (InversePowerLawPotential_sr_from_dist S self dist')
               (InversePowerLawPotential_lr_from_dist S self dist')
         = InversePowerLawPotential_from_dist self dist'"
proof -
  have "1 / (2 * (smearing self)\<^sup>2) powr (exponent self / 2)
          * gammaincc S (exponent self / 2) (0.5 * (the v)\<^sup>2 / (smearing self)\<^sup>2)
          / (0.5 * (the v)\<^sup>2 / (smearing self)\<^sup>2) powr (exponent self / 2)
      + 1 / (2 * (smearing self)\<^sup>2) powr (exponent self / 2)
          * gammainc S (exponent self / 2) (0.5 * (the v)\<^sup>2 / (smearing self)\<^sup>2)
          / (0.5 * (the v)\<^sup>2 / (smearing self)\<^sup>2) powr (exponent self / 2)
      = (the v) powr (- exponent self)" if "v \<in> set dist'" for v
  proof -
    from that d obtain r where r: "v = Some r" "0 < r"
      by (auto elim: positiveE)
    have x: "0.5 * r\<^sup>2 / (smearing self)\<^sup>2 = r\<^sup>2 / (2 * (smearing self)\<^sup>2)"
      by simp
    have "0 < r\<^sup>2 / (2 * (smearing self)\<^sup>2)"
      using r s by simp
    then have "gammainc S (exponent self / 2) (r\<^sup>2 / (2 * (smearing self)\<^sup>2))
        + gammaincc S (exponent self / 2) (r\<^sup>2 / (2 * (smearing self)\<^sup>2)) = 1"
      using c p by (simp add: complementary_def)
    from split_identity [OF p s r(2) this] show ?thesis
      unfolding r(1) option.sel x .
  qed
  then show ?thesis
    unfolding add_t_def sr_from_dist_value [OF s d] lr_from_dist_value [OF s d]
      from_dist_value [OF d]
    by (simp add: map2_map_map cong: map_cong)
qed

theorem sr_plus_lr_is_full_potential_witness:
  "0 < exponent \<lparr>exponent = 2, smearing = 1\<rparr> \<and> 0 < smearing \<lparr>exponent = 2, smearing = 1\<rparr>
   \<and> positive (Some 1) \<and> positive (Some 2) \<and> complementary ex_special
   \<and> add_t (InversePowerLawPotential_sr_from_dist ex_special \<lparr>exponent = 2, smearing = 1\<rparr> [Some 1, Some 2])
            (InversePowerLawPotential_lr_from_dist ex_special \<lparr>exponent = 2, smearing = 1\<rparr> [Some 1, Some 2])
       = [Some 1, Some (1 / 4)]"
proof -
  have h: "0 < exponent \<lparr>exponent = 2, smearing = 1\<rparr>" "0 < smearing \<lparr>exponent = 2, smearing = 1\<rparr>"
    "\<forall>d \<in> set [Some 1, Some 2]. positive d" "complementary ex_special"
    by (simp_all add: positive_def complementary_def ex_special_def)
  have "(2::real) powr (- 2) = 1 / 4"
    by (simp add: powr_minus_divide)
  then have "InversePowerLawPotential_from_dist \<lparr>exponent = 2, smearing = 1\<rparr> [Some 1, Some 2]
      = [Some 1, Some (1 / 4)]"
    by (simp add: InversePowerLawPotential_from_dist_def)
  with sr_plus_lr_is_full_potential [OF h] h show ?thesis by (simp add: positive_def)
qed

subsection \<open>The zero wave vector\<close>

text \<open>
  Claim C2. For every exponent and every smearing, the reciprocal-space long-range
  potential is exactly zero at each element of its input that is zero: the selection on
  the mask \<^verbatim>\<open>k_sq == 0\<close> decides, whatever the other branch computes there.
\<close>

theorem from_k_sq_zero_wavevector:
  assumes "i < length k_sq" and "k_sq ! i = Some 0"
  shows "InversePowerLawPotential_from_k_sq S self k_sq ! i = Some 0"
  using assms unfolding InversePowerLawPotential_from_k_sq_def Let_def
  by (simp add: where_v_def)

theorem from_k_sq_zero_wavevector_witness:
  "(0::nat) < length [Some 0, Some 1] \<and> [Some 0, Some 1] ! 0 = Some (0::real)
   \<and> InversePowerLawPotential_from_k_sq ex_special \<lparr>exponent = 4, smearing = 1\<rparr> [Some 0, Some 1] ! 0
       = Some 0"
  using from_k_sq_zero_wavevector [of 0 "[Some 0, Some 1]" ex_special "\<lparr>exponent = 4, smearing = 1\<rparr>"]
  by simp

text \<open>The zero is the selection's and not the formula's: at a zero wave vector the formula
  has no value, for every exponent but 3, where \<open>(3 - p) / 2\<close> is zero.\<close>

lemma from_k_sq_select:
  "InversePowerLawPotential_from_k_sq S self k_sq
   = map (\<lambda>k. where_v (k = Some 0) (Some 0) (fourier_elsewhere S self k)) k_sq"
  by (simp add: InversePowerLawPotential_from_k_sq_def fourier_elsewhere_def Let_def)

lemma mul_None: "mul None b = None" "mul a None = None"
  by (simp_all add: mul_def)

lemma true_divide_zero: "true_divide a (Some 0) = None"
  by (simp add: true_divide_def split: option.split)

lemma fourier_elsewhere_at_zero:
  assumes "exponent self \<noteq> 3"
  shows "fourier_elsewhere S self (Some 0) = None"
proof (cases "exponent self < 3")
  case True
  then have "pow (Some 0) (Some ((3 - exponent self) / 2)) = Some 0"
    by (simp add: pow_zero_base)
  then show ?thesis
    by (simp add: fourier_elsewhere_def Let_def mul_None true_divide_zero)
next
  case False
  with assms have "pow (Some 0) (Some ((3 - exponent self) / 2)) = None"
    by (simp add: pow_zero_base)
  then show ?thesis
    by (simp add: fourier_elsewhere_def Let_def mul_None true_divide_zero)
qed

subsection \<open>Distances and squared distances\<close>




subsection \<open>The abstract evaluators\<close>

text \<open>
  Claim C7. On the abstract base potential \<^verbatim>\<open>from_dist\<close>, and on the abstract
  range-separated potential \<^verbatim>\<open>sr_from_dist\<close> and \<^verbatim>\<open>lr_from_dist\<close>, raise
  \<^verbatim>\<open>NotImplementedError\<close> for every input array, and so return no value.
\<close>

theorem abstract_evaluators_raise:
  "from_dist S BasePotential dist'
     = Inl (Exn NotImplementedError (NotImplemented ''from_dist'' ''BasePotential''))
   \<and> sr_from_dist S RangeSeparatedPotential dist'
     = Inl (Exn NotImplementedError (NotImplemented ''sr_from_dist'' ''RangeSeparatedPotential''))
   \<and> lr_from_dist S RangeSeparatedPotential dist'
     = Inl (Exn NotImplementedError (NotImplemented ''lr_from_dist'' ''RangeSeparatedPotential''))"
  by (simp add: BasePotential_from_dist_def RangeSeparatedPotential_sr_from_dist_def
      RangeSeparatedPotential_lr_from_dist_def)

text \<open>So do the evaluators the two classes derive from them.\<close>

lemma abstract_derived_evaluators_raise:
  "from_dist_sq S BasePotential dist_sq
     = Inl (Exn NotImplementedError (NotImplemented ''from_dist'' ''BasePotential''))"
  "from_dist S RangeSeparatedPotential dist'
     = Inl (Exn NotImplementedError (NotImplemented ''sr_from_dist'' ''RangeSeparatedPotential''))"
  "from_dist_sq S RangeSeparatedPotential dist_sq
     = Inl (Exn NotImplementedError (NotImplemented ''sr_from_dist'' ''RangeSeparatedPotential''))"
  by (simp_all add: BasePotential_from_dist_sq_def BasePotential_from_dist_def
      RangeSeparatedPotential_from_dist_def RangeSeparatedPotential_from_dist_sq_def
      RangeSeparatedPotential_sr_from_dist_def Let_def)

subsection \<open>Calls leave the state alone\<close>


subsection \<open>Four values of the Gamma function\<close>

lemma prod_two_shift: "(\<Prod>k = 0..n. 2 + real k) = fact (n + 2)"
  by (induction n) (simp_all add: algebra_simps)

lemma Gamma_seq_two: "Gamma_seq 2 n = (real n / real (Suc n)) * (real n / real (Suc (Suc n)))"
proof (cases "n = 0")
  case True
  then show ?thesis by (simp add: Gamma_seq_def)
next
  case False
  then have "real n powr 2 = (real n)\<^sup>2" by simp
  then show ?thesis
    unfolding Gamma_seq_def prod_two_shift
    by (simp add: power2_eq_square)
qed

lemma Gamma_two: "Gamma 2 = 1"
proof -
  have a: "(\<lambda>n. real n / real (Suc n)) \<longlonglongrightarrow> 1"
    by (rule LIMSEQ_n_over_Suc_n)
  have b: "(\<lambda>n. real (Suc n) / real (Suc (Suc n))) \<longlonglongrightarrow> 1"
    using a by (rule LIMSEQ_Suc)
  have "(\<lambda>n. (real n / real (Suc n)) * ((real n / real (Suc n)) * (real (Suc n) / real (Suc (Suc n)))))
          \<longlonglongrightarrow> 1 * (1 * 1)"
    by (intro tendsto_mult a b)
  moreover have "(real n / real (Suc n)) * ((real n / real (Suc n)) * (real (Suc n) / real (Suc (Suc n))))
      = Gamma_seq 2 n" for n
    unfolding Gamma_seq_two by simp
  ultimately have "Gamma_seq 2 \<longlonglongrightarrow> 1"
    by simp
  then show ?thesis
    unfolding Gamma_def by (rule limI)
qed

lemma Gamma_seq_neg_half_Suc:
  "Gamma_seq (- 1 / 2) (Suc (Suc n)) = Gamma_seq (- 1 / 2) (Suc n) * neg_half_ratio n"
proof -
  have pw: "real (Suc (Suc n)) powr (- 1 / 2)
          = real (Suc n) powr (- 1 / 2) * sqrt ((real n + 1) / (real n + 2))"
  proof -
    have "real (Suc (Suc n)) powr (- 1 / 2) = 1 / sqrt (real n + 2)"
      by (simp add: powr_minus powr_half_sqrt field_simps add.commute)
    moreover have "real (Suc n) powr (- 1 / 2) = 1 / sqrt (real n + 1)"
      by (simp add: powr_minus powr_half_sqrt field_simps add.commute)
    moreover have "sqrt ((real n + 1) / (real n + 2)) = sqrt (real n + 1) / sqrt (real n + 2)"
      by (simp add: real_sqrt_divide)
    moreover have "sqrt (real n + 1) \<noteq> 0"
      by (simp add: add_nonneg_eq_0_iff)
    ultimately show ?thesis by simp
  qed
  have pr: "(\<Prod>k = 0..Suc (Suc n). - 1 / 2 + real k)
          = (\<Prod>k = 0..Suc n. - 1 / 2 + real k) * (real n + 3 / 2)"
    by (simp add: algebra_simps)
  have fc: "(fact (Suc (Suc n)) :: real) = fact (Suc n) * (real n + 2)"
    by (simp add: algebra_simps)
  show ?thesis
    unfolding Gamma_seq_def pw pr fc neg_half_ratio_def
    by simp
qed

lemma neg_half_ratio_pos: "0 < neg_half_ratio n"
  unfolding neg_half_ratio_def by (intro divide_pos_pos mult_pos_pos) (simp_all add: add_pos_nonneg)

lemma neg_half_ratio_le_one: "neg_half_ratio n \<le> 1"
proof -
  have "(real n + 1) / (real n + 2) \<le> ((real n + 3 / 2) / (real n + 2))\<^sup>2"
  proof -
    have "(real n + 1) * (real n + 2) \<le> (real n + 3 / 2)\<^sup>2"
      by (simp add: power2_eq_square algebra_simps)
    then have "(real n + 1) * (real n + 2) / (real n + 2)\<^sup>2 \<le> (real n + 3 / 2)\<^sup>2 / (real n + 2)\<^sup>2"
      by (rule divide_right_mono) simp
    moreover have "(real n + 1) * (real n + 2) / (real n + 2)\<^sup>2 = (real n + 1) / (real n + 2)"
      by (simp add: power2_eq_square)
    ultimately show ?thesis
      by (simp add: power_divide)
  qed
  then have "sqrt ((real n + 1) / (real n + 2)) \<le> (real n + 3 / 2) / (real n + 2)"
    by (intro real_le_lsqrt) simp_all
  then have "(real n + 2) * sqrt ((real n + 1) / (real n + 2)) \<le> real n + 3 / 2"
    by (simp add: field_simps)
  then show ?thesis
    unfolding neg_half_ratio_def by simp
qed

lemma neg_half_ratio_square: "(neg_half_ratio n)\<^sup>2 = (real n + 1) * (real n + 2) / (real n + 3 / 2)\<^sup>2"
proof -
  have "(sqrt ((real n + 1) / (real n + 2)))\<^sup>2 = (real n + 1) / (real n + 2)"
    by simp
  then have "(neg_half_ratio n)\<^sup>2 = (real n + 2)\<^sup>2 * ((real n + 1) / (real n + 2)) / (real n + 3 / 2)\<^sup>2"
    unfolding neg_half_ratio_def by (simp only: power_divide power_mult_distrib)
  also have "(real n + 2)\<^sup>2 * ((real n + 1) / (real n + 2)) = (real n + 1) * (real n + 2)"
    by (simp add: power2_eq_square)
  finally show ?thesis .
qed

lemma neg_half_seq_0: "neg_half_seq 0 = - 4"
  by (simp add: neg_half_seq_def Gamma_seq_def)

lemma neg_half_seq_Suc: "neg_half_seq (Suc n) = neg_half_seq n * neg_half_ratio n"
  unfolding neg_half_seq_def by (rule Gamma_seq_neg_half_Suc)

lemma neg_half_seq_neg: "neg_half_seq n < 0"
  by (induction n) (simp_all add: neg_half_seq_0 neg_half_seq_Suc mult_neg_pos neg_half_ratio_pos)

lemma neg_half_seq_incseq: "incseq neg_half_seq"
proof (rule incseq_SucI)
  fix n
  have "neg_half_seq n * 1 \<le> neg_half_seq n * neg_half_ratio n"
    using neg_half_seq_neg [of n] neg_half_ratio_le_one [of n] by (intro mult_left_mono_neg) simp_all
  then show "neg_half_seq n \<le> neg_half_seq (Suc n)"
    by (simp add: neg_half_seq_Suc)
qed

lemma neg_half_seq_square_bound: "4 * (2 * real n + 3) \<le> (neg_half_seq n)\<^sup>2 * (real n + 1)"
proof (induction n)
  case 0
  show ?case by (simp add: neg_half_seq_0)
next
  case (Suc n)
  have step: "(neg_half_seq (Suc n))\<^sup>2 * (real (Suc n) + 1)
      = ((neg_half_seq n)\<^sup>2 * (real n + 1)) * ((real n + 2)\<^sup>2 / (real n + 3 / 2)\<^sup>2)"
    unfolding neg_half_seq_Suc power_mult_distrib neg_half_ratio_square
    by (simp add: power2_eq_square algebra_simps)
  have pos: "0 < (real n + 3 / 2)\<^sup>2"
    by (simp add: add_nonneg_pos)
  have "4 * (2 * real (Suc n) + 3) * (real n + 3 / 2)\<^sup>2
        \<le> 4 * (2 * real n + 3) * (real n + 2)\<^sup>2"
    by (simp add: power2_eq_square algebra_simps)
  then have "4 * (2 * real (Suc n) + 3)
        \<le> 4 * (2 * real n + 3) * (real n + 2)\<^sup>2 / (real n + 3 / 2)\<^sup>2"
    using pos by (simp only: pos_le_divide_eq)
  then have "4 * (2 * real (Suc n) + 3)
        \<le> (4 * (2 * real n + 3)) * ((real n + 2)\<^sup>2 / (real n + 3 / 2)\<^sup>2)"
    by (simp only: times_divide_eq_right)
  also have "\<dots> \<le> ((neg_half_seq n)\<^sup>2 * (real n + 1)) * ((real n + 2)\<^sup>2 / (real n + 3 / 2)\<^sup>2)"
    using Suc.IH by (intro mult_right_mono) simp_all
  finally show ?case
    unfolding step .
qed

lemma neg_half_seq_le: "neg_half_seq n \<le> - 2"
proof (rule ccontr)
  assume "\<not> neg_half_seq n \<le> - 2"
  with neg_half_seq_neg [of n] have "- neg_half_seq n < 2" "0 \<le> - neg_half_seq n" by simp_all
  then have "(- neg_half_seq n)\<^sup>2 < 2\<^sup>2"
    by (intro power_strict_mono) simp_all
  then have "(neg_half_seq n)\<^sup>2 * (real n + 1) \<le> 4 * (real n + 1)"
    by (intro mult_right_mono) simp_all
  with neg_half_seq_square_bound [of n] show False by simp
qed

lemma Gamma_seq_neg_half_limit: "Gamma_seq (- 1 / 2) \<longlonglongrightarrow> Gamma (- 1 / 2)"
proof -
  obtain L where L: "neg_half_seq \<longlonglongrightarrow> L"
    using incseq_convergent [OF neg_half_seq_incseq, of "- 2"] neg_half_seq_le by blast
  then have *: "Gamma_seq (- 1 / 2) \<longlonglongrightarrow> L"
    unfolding neg_half_seq_def by (rule LIMSEQ_imp_Suc)
  then have "Gamma (- 1 / 2) = L"
    unfolding Gamma_def by (rule limI)
  with * show ?thesis by simp
qed

lemma Gamma_neg_half_le: "Gamma (- 1 / 2) \<le> - 2"
proof (rule LIMSEQ_le_const2)
  show "neg_half_seq \<longlonglongrightarrow> Gamma (- 1 / 2)"
    unfolding neg_half_seq_def using Gamma_seq_neg_half_limit by (rule LIMSEQ_Suc)
  show "\<exists>N. \<forall>n\<ge>N. neg_half_seq n \<le> - 2"
    using neg_half_seq_le by auto
qed

lemma Gamma_neg_half: "Gamma (- 1 / 2) < 0"
  using Gamma_neg_half_le by simp

lemma prod_one_shift: "(\<Prod>k = 0..n. 1 + real k) = fact (Suc n)"
  by (induction n) (simp_all add: algebra_simps)

lemma Gamma_seq_one: "Gamma_seq 1 n = real n / real (Suc n)"
  unfolding Gamma_seq_def prod_one_shift by simp

lemma Gamma_one: "Gamma 1 = 1"
proof -
  have "Gamma_seq 1 \<longlonglongrightarrow> 1"
    using LIMSEQ_n_over_Suc_n [where ?'a = real] by (simp add: Gamma_seq_one [abs_def])
  then show ?thesis
    unfolding Gamma_def by (rule limI)
qed

lemma prod_shift_arg:
  fixes x :: real
  shows "x * (\<Prod>k = 0..n. x + 1 + real k) = (\<Prod>k = 0..n. x + real k) * (x + real n + 1)"
proof -
  have a: "(\<Prod>k = 0..Suc n. x + real k) = x * (\<Prod>k = 0..n. x + 1 + real k)"
    by (subst prod.atLeast0_atMost_Suc_shift) (simp add: algebra_simps)
  have b: "(\<Prod>k = 0..Suc n. x + real k) = (\<Prod>k = 0..n. x + real k) * (x + real n + 1)"
    by (simp add: algebra_simps)
  from a [symmetric] b show ?thesis by (rule trans)
qed

lemma prod_neg_half_nonzero: "(\<Prod>k = 0..n. - 1 / 2 + real k) \<noteq> 0"
proof -
  have "- 1 / 2 + real k \<noteq> 0" for k
  proof
    assume "- 1 / 2 + real k = 0"
    then have "real (2 * k) = real 1" by simp
    then have "2 * k = 1" by (simp only: of_nat_eq_iff)
    then show False by presburger
  qed
  then show ?thesis by simp
qed

lemma Gamma_seq_half: "Gamma_seq (1 / 2) n = Gamma_seq (- 1 / 2) n * (- (real n / (2 * real n + 1)))"
proof (cases "n = 0")
  case True
  then show ?thesis by (simp add: Gamma_seq_def)
next
  case False
  then have n: "0 < real n" by simp
  have pw: "real n powr (1 / 2) = real n powr (- 1 / 2) * real n"
    using n powr_add [of "real n" "- 1 / 2" 1] by simp
  have "(- 1 / 2) * (\<Prod>k = 0..n. - 1 / 2 + 1 + real k)
        = (\<Prod>k = 0..n. - 1 / 2 + real k) * (- 1 / 2 + real n + 1)"
    by (rule prod_shift_arg)
  then have pr: "(\<Prod>k = 0..n. 1 / 2 + real k)
        = (\<Prod>k = 0..n. - 1 / 2 + real k) * (- (2 * real n + 1))"
    by (simp add: algebra_simps)
  have nz: "2 * real n + 1 \<noteq> 0" using n by simp
  show ?thesis
    unfolding Gamma_seq_def pw pr
    using prod_neg_half_nonzero [of n] nz by (simp add: divide_simps) (simp add: algebra_simps)
qed

lemma half_limit: "(\<lambda>n. real n / (2 * real n + 1)) \<longlonglongrightarrow> 1 / 2"
proof -
  have "(\<lambda>n. 1 / (2 + inverse (real n))) \<longlonglongrightarrow> 1 / (2 + 0)"
    by (intro tendsto_intros lim_inverse_n) simp
  moreover have "\<forall>\<^sub>F n in sequentially. 1 / (2 + inverse (real n)) = real n / (2 * real n + 1)"
    using eventually_gt_at_top [of 0]
    by eventually_elim (simp add: divide_simps)
  ultimately show ?thesis
    by (simp add: tendsto_cong)
qed

lemma Gamma_half: "Gamma (1 / 2) = - Gamma (- 1 / 2) / 2"
proof -
  have "(\<lambda>n. Gamma_seq (- 1 / 2) n * (- (real n / (2 * real n + 1))))
          \<longlonglongrightarrow> Gamma (- 1 / 2) * (- (1 / 2))"
    by (intro tendsto_intros Gamma_seq_neg_half_limit half_limit)
  then have "Gamma_seq (1 / 2) \<longlonglongrightarrow> Gamma (- 1 / 2) * (- (1 / 2))"
    by (simp add: Gamma_seq_half [abs_def])
  then have "Gamma (1 / 2) = Gamma (- 1 / 2) * (- (1 / 2))"
    unfolding Gamma_def by (rule limI)
  then show ?thesis by simp
qed

lemma Gamma_half_pos: "0 < Gamma (1 / 2)"
  using Gamma_neg_half_le by (simp add: Gamma_half)

subsection \<open>The long-range part in reciprocal space\<close>

lemma from_k_sq_value:
  assumes s: "0 < smearing self" and k: "\<forall>k \<in> set k_sq. positive k"
  shows "InversePowerLawPotential_from_k_sq S self k_sq =
     map (\<lambda>k. Some (pi powr 1.5 / exp (gammaln S (exponent self / 2))
                  * (2 * (smearing self)\<^sup>2) powr ((3 - exponent self) / 2)
                  * gammaincc S ((3 - exponent self) / 2) (0.5 * (smearing self)\<^sup>2 * the k)
                  / (0.5 * (smearing self)\<^sup>2 * the k) powr ((3 - exponent self) / 2)
                  * exp (gammaln S ((3 - exponent self) / 2)))) k_sq"
  unfolding InversePowerLawPotential_from_k_sq_def Let_def
proof (rule map_cong [OF refl])
  fix v assume "v \<in> set k_sq"
  with k obtain r where r: "v = Some r" "0 < r"
    by (auto elim: positiveE)
  have x: "0 < 0.5 * (smearing self)\<^sup>2 * r"
    using r s by simp
  show "where_v (v = Some 0) (Some 0)
          (mul (true_divide
                 (mul (mul (true_divide (Some (pi powr 1.5))
                              (gamma S (true_divide (Some (exponent self)) (Some 2))))
                           (pow (Some (2 * (smearing self)\<^sup>2))
                                (true_divide (sub (Some 3) (Some (exponent self))) (Some 2))))
                      (lift2 (gammaincc S) (true_divide (sub (Some 3) (Some (exponent self))) (Some 2))
                             (mul (Some (0.5 * (smearing self)\<^sup>2)) v)))
                 (pow (mul (Some (0.5 * (smearing self)\<^sup>2)) v)
                      (true_divide (sub (Some 3) (Some (exponent self))) (Some 2))))
               (gamma S (true_divide (sub (Some 3) (Some (exponent self))) (Some 2))))
        = Some (pi powr 1.5 / exp (gammaln S (exponent self / 2))
                  * (2 * (smearing self)\<^sup>2) powr ((3 - exponent self) / 2)
                  * gammaincc S ((3 - exponent self) / 2) (0.5 * (smearing self)\<^sup>2 * the v)
                  / (0.5 * (smearing self)\<^sup>2 * the v) powr ((3 - exponent self) / 2)
                  * exp (gammaln S ((3 - exponent self) / 2)))"
    using s x r(2) by (simp add: r(1) where_v_def)
qed

lemma from_k_sq_example:
  "InversePowerLawPotential_from_k_sq S \<lparr>exponent = 4, smearing = 1\<rparr> [Some 2]
   = [Some (pi powr 1.5 * 2 powr (- 1 / 2) * gammaincc S (- 1 / 2) 1
              * (exp (gammaln S (- 1 / 2)) / exp (gammaln S 2)))]"
proof -
  have "InversePowerLawPotential_from_k_sq S \<lparr>exponent = 4, smearing = 1\<rparr> [Some 2]
     = [Some (pi powr 1.5 / exp (gammaln S 2) * 2 powr (- 1 / 2) * gammaincc S (- 1 / 2) 1
              * exp (gammaln S (- 1 / 2)))]"
    by (subst from_k_sq_value) (simp_all add: positive_def)
  then show ?thesis by simp
qed

lemma spec_example:
  "spec_long_range_by_squared_wavevector Q 4 1 2
   = pi powr 1.5 * 2 powr (- 1 / 2) * Q (- 1 / 2) 1 * Gamma (- 1 / 2)"
  by (simp add: spec_long_range_by_squared_wavevector_def Gamma_two Let_def)

text \<open>Where the Gamma function is positive at both of its arguments, the code is the
  formula of the specification; the Coulomb exponent \<open>p = 1\<close> is such a case.\<close>

lemma gamma_is_abs_Gamma:
  assumes "gammaln_is_log_abs_Gamma S" and "Gamma x \<noteq> 0"
  shows "gamma S (Some x) = Some \<bar>Gamma x\<bar>"
  using assms by (simp add: gammaln_is_log_abs_Gamma_def)

lemma from_k_sq_is_formula:
  assumes s: "0 < smearing self" and k: "\<forall>k \<in> set k_sq. positive k"
      and gl: "gammaln_is_log_abs_Gamma S"
      and g1: "0 < Gamma (exponent self / 2)"
      and g2: "0 < Gamma ((3 - exponent self) / 2)"
  shows "InversePowerLawPotential_from_k_sq S self k_sq =
     map (\<lambda>k. Some (spec_long_range_by_squared_wavevector (gammaincc S)
                       (exponent self) (smearing self) (the k))) k_sq"
proof -
  have e1: "exp (gammaln S (exponent self / 2)) = Gamma (exponent self / 2)"
    using gl g1 by (simp add: gammaln_is_log_abs_Gamma_def)
  have e2: "exp (gammaln S ((3 - exponent self) / 2)) = Gamma ((3 - exponent self) / 2)"
    using gl g2 by (simp add: gammaln_is_log_abs_Gamma_def)
  show ?thesis
    unfolding from_k_sq_value [OF s k] e1 e2 spec_long_range_by_squared_wavevector_def Let_def
    by (rule map_cong [OF refl]) (simp add: mult.commute)
qed

lemma from_k_sq_coulomb:
  assumes "exponent self = 1" and "0 < smearing self" and "\<forall>k \<in> set k_sq. positive k"
      and "gammaln_is_log_abs_Gamma S"
  shows "InversePowerLawPotential_from_k_sq S self k_sq =
     map (\<lambda>k. Some (spec_long_range_by_squared_wavevector (gammaincc S) 1 (smearing self) (the k)))
       k_sq"
  using from_k_sq_is_formula [OF assms(2,3,4)] Gamma_half_pos Gamma_one
  by (simp add: assms(1))

text \<open>At the exponent \<open>p = 4\<close> the code is the formula with the opposite sign, for every
  smearing and every wave vector.\<close>

lemma from_k_sq_exponent_four:
  assumes p: "exponent self = 4" and s: "0 < smearing self"
      and k: "\<forall>k \<in> set k_sq. positive k"
      and gl: "gammaln_is_log_abs_Gamma S"
  shows "InversePowerLawPotential_from_k_sq S self k_sq =
     map (\<lambda>k. Some (- spec_long_range_by_squared_wavevector (gammaincc S)
                         4 (smearing self) (the k))) k_sq"
proof -
  have e1: "exp (gammaln S (exponent self / 2)) = 1"
    using gl by (simp add: gammaln_is_log_abs_Gamma_def p Gamma_two)
  have "exp (ln \<bar>Gamma (- 1 / 2)\<bar>) = \<bar>Gamma (- 1 / 2)\<bar>"
    using Gamma_neg_half by simp
  then have e2: "exp (gammaln S ((3 - exponent self) / 2)) = - Gamma (- 1 / 2)"
    using gl Gamma_neg_half by (simp add: gammaln_is_log_abs_Gamma_def p)
  have p': "(3 - exponent self) / 2 = - 1 / 2" "exponent self / 2 = 2"
    by (simp_all add: p)
  show ?thesis
    unfolding from_k_sq_value [OF s k] e1 e2 spec_long_range_by_squared_wavevector_def Let_def
    unfolding p'
    by (rule map_cong [OF refl]) (simp add: Gamma_two mult.commute)
qed

text \<open>
  Claim C3. The claim: for \<open>p > 0\<close>, \<open>\<sigma> > 0\<close> and \<open>k\<^sup>2 > 0\<close>, \<^verbatim>\<open>from_k_sq\<close> is the formula
  of the specification with the mathematical Gamma function, also where
  \<open>(3 - p) / 2\<close> is negative. The code at \<open>p = 4\<close>, \<open>\<sigma> = 1\<close>, \<open>k\<^sup>2 = 2\<close>: there
  \<open>(3 - p) / 2 = - 1 / 2\<close> and \<open>\<Gamma>(- 1 / 2) < 0\<close>, while \<^verbatim>\<open>exp(gammaln(x))\<close> is positive
  whatever \<^verbatim>\<open>gammaln\<close> returns, so the value of the code is not the value of the formula
  unless the upper regularized function vanishes at \<open>(- 1 / 2, 1)\<close>.
\<close>

theorem from_k_sq_differs_from_formula:
  assumes "gammaincc S (- 1 / 2) 1 \<noteq> 0"
  shows "InversePowerLawPotential_from_k_sq S \<lparr>exponent = 4, smearing = 1\<rparr> [Some 2]
         \<noteq> [Some (spec_long_range_by_squared_wavevector (gammaincc S) 4 1 2)]"
proof
  assume "InversePowerLawPotential_from_k_sq S \<lparr>exponent = 4, smearing = 1\<rparr> [Some 2]
         = [Some (spec_long_range_by_squared_wavevector (gammaincc S) 4 1 2)]"
  then have "pi powr 1.5 * 2 powr (- 1 / 2) * gammaincc S (- 1 / 2) 1
              * (exp (gammaln S (- 1 / 2)) / exp (gammaln S 2))
           = pi powr 1.5 * 2 powr (- 1 / 2) * gammaincc S (- 1 / 2) 1 * Gamma (- 1 / 2)"
    unfolding from_k_sq_example spec_example by simp
  moreover have "pi powr 1.5 * 2 powr (- 1 / 2) * gammaincc S (- 1 / 2) 1 \<noteq> 0"
    using assms by simp
  ultimately have "exp (gammaln S (- 1 / 2)) / exp (gammaln S 2) = Gamma (- 1 / 2)"
    by (metis mult_left_cancel)
  moreover have "0 < exp (gammaln S (- 1 / 2)) / exp (gammaln S 2)"
    by simp
  ultimately show False
    using Gamma_neg_half by simp
qed

theorem from_k_sq_differs_from_formula_witness:
  "gammaincc ex_special (- 1 / 2) 1 \<noteq> 0
   \<and> InversePowerLawPotential_from_k_sq ex_special \<lparr>exponent = 4, smearing = 1\<rparr> [Some 2]
         \<noteq> [Some (spec_long_range_by_squared_wavevector (gammaincc ex_special) 4 1 2)]"
proof -
  have h: "gammaincc ex_special (- 1 / 2) 1 \<noteq> 0"
    by (simp add: ex_special_def)
  from from_k_sq_differs_from_formula [OF h] h show ?thesis by simp
qed

end
